theory Spec2Isabelle
  imports Main "HOL-Library.Sublist"
begin

section \<open>Python strings\<close>

text \<open>
  A Python \<open>str\<close> is a sequence of Unicode code points. It is modelled as a list of
  code points, so that \<open>strip\<close> sees the same characters the interpreter sees (a byte
  string would split the non-ASCII white space into several elements).
\<close>

type_synonym pystr = "nat list"

definition lit :: "string \<Rightarrow> pystr" where
  "lit s = map of_char s"

text \<open>
  \<open>str.isspace\<close> on one code point, the test \<open>str.strip()\<close> applies: the code points
  CPython classifies as white space (U+0009..U+000D, U+001C..U+0020, U+0085, U+00A0,
  U+1680, U+2000..U+200A, U+2028, U+2029, U+202F, U+205F, U+3000).
\<close>

definition isspace :: "nat \<Rightarrow> bool" where
  "isspace c \<longleftrightarrow>
     (0x09 \<le> c \<and> c \<le> 0x0D) \<or> (0x1C \<le> c \<and> c \<le> 0x20) \<or> c = 0x85 \<or> c = 0xA0 \<or>
     c = 0x1680 \<or> (0x2000 \<le> c \<and> c \<le> 0x200A) \<or> c = 0x2028 \<or> c = 0x2029 \<or>
     c = 0x202F \<or> c = 0x205F \<or> c = 0x3000"

text \<open>\<open>s.strip()\<close>: the white space at both ends is dropped, the rest is kept.\<close>

definition strip :: "pystr \<Rightarrow> pystr" where
  "strip s = rev (dropWhile isspace (rev (dropWhile isspace s)))"

text \<open>\<open>str(n)\<close> for an integer, which is what an f-string field \<open>{n}\<close> inserts.\<close>

fun str_nat :: "nat \<Rightarrow> pystr" where
  "str_nat n = (if n < 10 then [48 + n] else str_nat (n div 10) @ [48 + n mod 10])"

declare str_nat.simps [simp del]

definition str_int :: "int \<Rightarrow> pystr" where
  "str_int i = (if i < 0 then 45 # str_nat (nat (- i)) else str_nat (nat i))"

text \<open>
  Reading a decimal numeral back: the digit characters and the number a string of digits
  denotes. They say which number a piece of the rendered output shows.
\<close>

definition is_digit :: "nat \<Rightarrow> bool" where
  "is_digit c \<longleftrightarrow> 48 \<le> c \<and> c \<le> 57"

definition dec_value :: "pystr \<Rightarrow> nat" where
  "dec_value ds = foldl (\<lambda>a d. 10 * a + (d - 48)) 0 ds"

section \<open>The data model\<close>

text \<open>
  A todo is the dictionary \<open>add_todo\<close> builds, with its four keys; the key \<open>"id"\<close> is
  the field \<open>id_todo\<close>. \<open>created_at\<close> holds the formatted time stamp.
\<close>

record todo =
  id_todo :: int
  "text" :: pystr
  completed :: bool
  created_at :: pystr

text \<open>The object state of \<open>TodoApp\<close>: \<open>self.todos\<close> and \<open>self.next_id\<close>.\<close>

record TodoApp =
  todos :: "todo list"
  next_id :: int

text \<open>\<open>TodoApp.__init__\<close>\<close>

definition init :: TodoApp where
  "init = \<lparr>todos = [], next_id = 1\<rparr>"

section \<open>The renderer\<close>

text \<open>
  The string constants of \<open>get_todos_display\<close>, character for character: the
  empty-state block, the opening block with the style sheet, and the constant segments of
  the two f-strings (statistics and one row), in the order they stand between the fields.
\<close>

definition empty_html :: pystr where
  \<open>empty_html = lit (
     ''\<newline>'' @
     ''            <div style="text-align: center; padding: 40px; color: #666;">\<newline>'' @
     ''                <h3>No todos yet!</h3>\<newline>'' @
     ''                <p>Add your first todo above to get started.</p>\<newline>'' @
     ''            </div>\<newline>'' @
     ''            '')\<close>

definition style_html :: pystr where
  \<open>style_html = lit (
     ''\<newline>'' @
     ''        <div style="max-width: 600px; margin: 0 auto;">\<newline>'' @
     ''            <style>\<newline>'' @
     ''                .todo-item {\<newline>'' @
     ''                    display: flex;\<newline>'' @
     ''                    align-items: center;\<newline>'' @
     ''                    padding: 12px;\<newline>'' @
     ''                    margin: 8px 0;\<newline>'' @
     ''                    background: white;\<newline>'' @
     ''                    border: 1px solid #e1e5e9;\<newline>'' @
     ''                    border-radius: 6px;\<newline>'' @
     ''                    box-shadow: 0 1px 3px rgba(0,0,0,0.1);\<newline>'' @
     ''                }\<newline>'' @
     ''                .todo-completed {\<newline>'' @
     ''                    background: #f8f9fa;\<newline>'' @
     ''                    opacity: 0.7;\<newline>'' @
     ''                }\<newline>'' @
     ''                .todo-text {\<newline>'' @
     ''                    flex: 1;\<newline>'' @
     ''                    margin: 0 12px;\<newline>'' @
     ''                    font-size: 16px;\<newline>'' @
     ''                }\<newline>'' @
     ''                .todo-completed .todo-text {\<newline>'' @
     ''                    text-decoration: line-through;\<newline>'' @
     ''                    color: #6c757d;\<newline>'' @
     ''                }\<newline>'' @
     ''                .todo-actions {\<newline>'' @
     ''                    display: flex;\<newline>'' @
     ''                    gap: 8px;\<newline>'' @
     ''                }\<newline>'' @
     ''                .btn-small {\<newline>'' @
     ''                    padding: 4px 8px;\<newline>'' @
     ''                    font-size: 12px;\<newline>'' @
     ''                    border: none;\<newline>'' @
     ''                    border-radius: 4px;\<newline>'' @
     ''                    cursor: pointer;\<newline>'' @
     ''                }\<newline>'' @
     ''                .btn-toggle {\<newline>'' @
     ''                    background: #28a745;\<newline>'' @
     ''                    color: white;\<newline>'' @
     ''                }\<newline>'' @
     ''                .btn-toggle.completed {\<newline>'' @
     ''                    background: #6c757d;\<newline>'' @
     ''                }\<newline>'' @
     ''                .btn-delete {\<newline>'' @
     ''                    background: #dc3545;\<newline>'' @
     ''                    color: white;\<newline>'' @
     ''                }\<newline>'' @
     ''                .stats {\<newline>'' @
     ''                    text-align: center;\<newline>'' @
     ''                    margin: 20px 0;\<newline>'' @
     ''                    padding: 15px;\<newline>'' @
     ''                    background: #f8f9fa;\<newline>'' @
     ''                    border-radius: 6px;\<newline>'' @
     ''                }\<newline>'' @
     ''            </style>\<newline>'' @
     ''        '')\<close>

definition stats_seg0 :: pystr where
  \<open>stats_seg0 = lit (
     ''\<newline>'' @
     ''            <div class="stats">\<newline>'' @
     ''                <strong>Total: '')\<close>

definition stats_seg1 :: pystr where
  \<open>stats_seg1 = lit (
     ''</strong> | \<newline>'' @
     ''                <span style="color: #28a745;">Completed: '')\<close>

definition stats_seg2 :: pystr where
  \<open>stats_seg2 = lit (
     ''</span> | \<newline>'' @
     ''                <span style="color: #ffc107;">Pending: '')\<close>

definition stats_seg3 :: pystr where
  \<open>stats_seg3 = lit (
     ''</span>\<newline>'' @
     ''            </div>\<newline>'' @
     ''        '')\<close>

definition todo_seg0 :: pystr where
  \<open>todo_seg0 = lit (
     ''\<newline>'' @
     ''            <div class="todo-item '')\<close>

definition todo_seg1 :: pystr where
  \<open>todo_seg1 = lit (
     ''">\<newline>'' @
     ''                <div class="todo-text">'')\<close>

definition todo_seg2 :: pystr where
  \<open>todo_seg2 = lit (
     ''</div>\<newline>'' @
     ''                <div class="todo-actions">\<newline>'' @
     ''                    <span style="font-size: 12px; color: #6c757d;">'')\<close>

definition todo_seg3 :: pystr where
  \<open>todo_seg3 = lit (
     ''</span>\<newline>'' @
     ''                </div>\<newline>'' @
     ''            </div>\<newline>'' @
     ''            '')\<close>

text \<open>The statistics f-string, with its three integer fields.\<close>

definition stats_html :: "int \<Rightarrow> int \<Rightarrow> int \<Rightarrow> pystr" where
  "stats_html total_n completed_n pending =
     stats_seg0 @ str_int total_n @ stats_seg1 @ str_int completed_n @ stats_seg2 @
     str_int pending @ stats_seg3"

text \<open>
  The body of the loop over the todos: the row f-string. The loop also computes
  \<open>toggle_text\<close> and \<open>toggle_class\<close>, which the f-string never uses; they are left out.
\<close>

definition todo_html :: "todo \<Rightarrow> pystr" where
  "todo_html todo =
     (let completed_class = (if completed todo then lit ''todo-completed'' else lit '''')
      in todo_seg0 @ completed_class @ todo_seg1 @ text todo @ todo_seg2 @
         created_at todo @ todo_seg3)"

text \<open>\<open>TodoApp.get_todos_display\<close>\<close>

definition get_todos_display :: "TodoApp \<Rightarrow> pystr" where
  "get_todos_display s =
     (if todos s = [] then empty_html
      else
        let html = style_html;
            total_n = int (length (todos s));
            completed_n = sum_list (map (\<lambda>todo. 1) (filter completed (todos s)));
            pending = total_n - completed_n;
            html = html @ stats_html total_n completed_n pending;
            html = foldl (\<lambda>html todo. html @ todo_html todo) html (todos s);
            html = html @ lit ''</div>''
        in html)"

section \<open>The store operations\<close>

text \<open>
  Each method takes the state and returns its result with the state it leaves. The
  clock read of \<open>add_todo\<close> (\<open>datetime.now().strftime(...)\<close>) is the argument \<open>now\<close>.
\<close>

definition add_todo :: "pystr \<Rightarrow> pystr \<Rightarrow> TodoApp \<Rightarrow> (pystr \<times> pystr) \<times> TodoApp" where
  "add_todo t now s =
     (if t = [] \<or> strip t = [] then
        ((get_todos_display s, lit ''Please enter a todo item''), s)
      else
        let todo = \<lparr>id_todo = next_id s, text = strip t, completed = False,
                    created_at = now\<rparr>;
            s = s\<lparr>todos := todos s @ [todo]\<rparr>;
            s = s\<lparr>next_id := next_id s + 1\<rparr>
        in ((get_todos_display s, lit ''''), s))"

text \<open>The loop of \<open>toggle_todo\<close>: the first todo with the id is flipped, then \<open>break\<close>.\<close>

fun toggle_loop :: "int \<Rightarrow> todo list \<Rightarrow> todo list" where
  "toggle_loop todo_id [] = []"
| "toggle_loop todo_id (todo # rest) =
     (if id_todo todo = todo_id then todo\<lparr>completed := \<not> completed todo\<rparr> # rest
      else todo # toggle_loop todo_id rest)"

definition toggle_todo :: "int \<Rightarrow> TodoApp \<Rightarrow> pystr \<times> TodoApp" where
  "toggle_todo todo_id s =
     (let s = s\<lparr>todos := toggle_loop todo_id (todos s)\<rparr>
      in (get_todos_display s, s))"

definition delete_todo :: "int \<Rightarrow> TodoApp \<Rightarrow> pystr \<times> TodoApp" where
  "delete_todo todo_id s =
     (let s = s\<lparr>todos := filter (\<lambda>todo. id_todo todo \<noteq> todo_id) (todos s)\<rparr>
      in (get_todos_display s, s))"

text \<open>The loop of \<open>edit_todo\<close>: the first todo with the id gets the new text, then \<open>break\<close>.\<close>

fun edit_loop :: "int \<Rightarrow> pystr \<Rightarrow> todo list \<Rightarrow> todo list" where
  "edit_loop todo_id new_text [] = []"
| "edit_loop todo_id new_text (todo # rest) =
     (if id_todo todo = todo_id then todo\<lparr>text := strip new_text\<rparr> # rest
      else todo # edit_loop todo_id new_text rest)"

definition edit_todo :: "int \<Rightarrow> pystr \<Rightarrow> TodoApp \<Rightarrow> pystr \<times> TodoApp" where
  "edit_todo todo_id new_text s =
     (if new_text = [] \<or> strip new_text = [] then (get_todos_display s, s)
      else
        let s = s\<lparr>todos := edit_loop todo_id new_text (todos s)\<rparr>
        in (get_todos_display s, s))"

definition clear_completed :: "TodoApp \<Rightarrow> pystr \<times> TodoApp" where
  "clear_completed s =
     (let s = s\<lparr>todos := filter (\<lambda>todo. \<not> completed todo) (todos s)\<rparr>
      in (get_todos_display s, s))"

section \<open>Sequences of operations\<close>

text \<open>
  The five mutating methods as one operation type, and the state a sequence of calls
  reaches from the state \<open>__init__\<close> leaves.
\<close>

datatype op = Add pystr pystr | Toggle int | Edit int pystr | Delete int | ClearCompleted

fun apply_op :: "TodoApp \<Rightarrow> op \<Rightarrow> TodoApp" where
  "apply_op s (Add t now) = snd (add_todo t now s)"
| "apply_op s (Toggle todo_id) = snd (toggle_todo todo_id s)"
| "apply_op s (Edit todo_id new_text) = snd (edit_todo todo_id new_text s)"
| "apply_op s (Delete todo_id) = snd (delete_todo todo_id s)"
| "apply_op s ClearCompleted = snd (clear_completed s)"

definition run :: "op list \<Rightarrow> TodoApp" where
  "run ops = foldl apply_op init ops"

text \<open>
  The invariant of the store: the ids are pairwise distinct and every id handed out lies
  below the counter.
\<close>

definition ids_fresh :: "TodoApp \<Rightarrow> bool" where
  "ids_fresh s \<longleftrightarrow>
     1 \<le> next_id s \<and> distinct (map id_todo (todos s)) \<and>
     list_all (\<lambda>i. 1 \<le> i \<and> i < next_id s) (map id_todo (todos s))"

section \<open>Example states\<close>

definition todo_a :: todo where
  "todo_a = \<lparr>id_todo = 1, text = lit ''A'', completed = False,
              created_at = lit ''2024-01-01 10:00:00''\<rparr>"

definition todo_b :: todo where
  "todo_b = \<lparr>id_todo = 2, text = lit ''B'', completed = False,
              created_at = lit ''2024-01-01 10:05:00''\<rparr>"

definition store_ab :: TodoApp where
  "store_ab = \<lparr>todos = [todo_a, todo_b], next_id = 3\<rparr>"

definition todo_markup :: todo where
  "todo_markup = \<lparr>id_todo = 1, text = lit ''<b>'', completed = False,
                   created_at = lit ''2024-01-01 10:00:00''\<rparr>"

definition store_markup :: TodoApp where
  "store_markup = \<lparr>todos = [todo_markup], next_id = 2\<rparr>"

section \<open>Lemmas\<close>

subsection \<open>Stripping\<close>

lemma all_dropWhile: "(\<forall>x\<in>set (dropWhile P s). P x) \<longleftrightarrow> (\<forall>x\<in>set s. P x)"
  by (induction s) auto

lemma strip_empty_iff: "strip s = [] \<longleftrightarrow> (\<forall>c\<in>set s. isspace c)"
  by (simp add: strip_def dropWhile_eq_Nil_conv all_dropWhile)

lemma strip_decomp:
  "s = takeWhile isspace s @ strip s @ rev (takeWhile isspace (rev (dropWhile isspace s)))"
proof -
  let ?d = "dropWhile isspace s"
  have "rev (rev ?d) = rev (takeWhile isspace (rev ?d) @ dropWhile isspace (rev ?d))"
    by (simp only: takeWhile_dropWhile_id)
  then have "?d = strip s @ rev (takeWhile isspace (rev ?d))"
    by (simp only: rev_rev_ident rev_append strip_def)
  then have "takeWhile isspace s @ ?d =
      takeWhile isspace s @ strip s @ rev (takeWhile isspace (rev ?d))"
    by simp
  then show ?thesis by (simp only: takeWhile_dropWhile_id)
qed

lemma strip_hd: "strip s \<noteq> [] \<Longrightarrow> \<not> isspace (hd (strip s))"
proof -
  assume ne: "strip s \<noteq> []"
  let ?d = "dropWhile isspace s"
  let ?e = "dropWhile isspace (rev ?d)"
  have e: "?e \<noteq> []" using ne unfolding strip_def rev_is_Nil_conv .
  have dne: "?d \<noteq> []"
  proof
    assume "?d = []"
    then have "?e = dropWhile isspace (rev [])" by (simp only:)
    with e show False by simp
  qed
  have "hd (strip s) = last ?e" using e by (simp add: strip_def hd_rev)
  also have "\<dots> = last (takeWhile isspace (rev ?d) @ ?e)" by (rule last_appendR[OF e, symmetric])
  also have "\<dots> = last (rev ?d)" by (simp only: takeWhile_dropWhile_id)
  also have "\<dots> = hd ?d" using dne by (simp add: last_rev)
  finally show ?thesis using dne hd_dropWhile by metis
qed

lemma strip_last: "strip s \<noteq> [] \<Longrightarrow> \<not> isspace (last (strip s))"
proof -
  assume ne: "strip s \<noteq> []"
  let ?e = "dropWhile isspace (rev (dropWhile isspace s))"
  have e: "?e \<noteq> []" using ne unfolding strip_def rev_is_Nil_conv .
  have "last (strip s) = hd ?e" using e by (simp add: strip_def last_rev)
  then show ?thesis using e hd_dropWhile by metis
qed

lemma dropWhile_hd_id: "xs \<noteq> [] \<Longrightarrow> \<not> P (hd xs) \<Longrightarrow> dropWhile P xs = xs"
  by (cases xs) auto

lemma strip_idem: "strip (strip s) = strip s"
proof (cases "strip s = []")
  case True
  have "strip [] = []" by (simp add: strip_def)
  with True show ?thesis by (simp only:)
next
  case False
  have a: "dropWhile isspace (strip s) = strip s"
    using strip_hd[OF False] False by (rule_tac dropWhile_hd_id)
  have "rev (strip s) \<noteq> []" using False by simp
  moreover have "hd (rev (strip s)) = last (strip s)" using False by (simp add: hd_rev)
  ultimately have b: "dropWhile isspace (rev (strip s)) = rev (strip s)"
    using strip_last[OF False] by (simp add: dropWhile_hd_id)
  show ?thesis unfolding strip_def[of "strip s"] a b by simp
qed

subsection \<open>Rendering\<close>

lemma foldl_append_html: "foldl (\<lambda>html todo. html @ f todo) h xs = h @ concat (map f xs)"
  by (induction xs arbitrary: h) auto

lemma count_completed: "sum_list (map (\<lambda>todo. 1) xs) = int (length xs)"
  by (induction xs) auto

lemma get_todos_display_nonempty:
  "todos s \<noteq> [] \<Longrightarrow> get_todos_display s =
     style_html @
     stats_html (int (length (todos s))) (int (length (filter completed (todos s))))
       (int (length (todos s)) - int (length (filter completed (todos s)))) @
     concat (map todo_html (todos s)) @ lit ''</div>''"
  by (simp add: get_todos_display_def Let_def foldl_append_html count_completed)

lemma get_todos_display_empty: "todos s = [] \<Longrightarrow> get_todos_display s = empty_html"
  by (simp add: get_todos_display_def)

lemma length_filter_split:
  "length xs = length (filter P xs) + length (filter (\<lambda>x. \<not> P x) xs)"
  by (induction xs) auto

lemma todo_html_eq:
  "todo_html r =
     todo_seg0 @ (if completed r then lit ''todo-completed'' else lit '''') @ todo_seg1 @
     text r @ todo_seg2 @ created_at r @ todo_seg3"
  by (simp add: todo_html_def Let_def)

lemma get_todos_display_markup:
  "get_todos_display store_markup =
     style_html @ stats_html 1 0 1 @ todo_seg0 @ lit '''' @ todo_seg1 @ lit ''<b>'' @
     todo_seg2 @ lit ''2024-01-01 10:00:00'' @ todo_seg3 @ lit ''</div>''"
proof -
  have "todos store_markup \<noteq> []" by (simp add: store_markup_def)
  from get_todos_display_nonempty[OF this] show ?thesis
    by (simp add: store_markup_def todo_markup_def todo_html_eq)
qed

subsection \<open>Decimal numerals\<close>

lemma str_nat_eq: "str_nat n = (if n < 10 then [48 + n] else str_nat (n div 10) @ [48 + n mod 10])"
  by (rule str_nat.simps)

lemma str_nat_nonempty: "str_nat n \<noteq> []"
  by (subst str_nat_eq) simp

lemma str_nat_digits: "list_all is_digit (str_nat n)"
proof (induction n rule: str_nat.induct)
  case (1 n)
  show ?case
  proof (cases "n < 10")
    case True
    then show ?thesis by (subst str_nat_eq) (simp add: is_digit_def)
  next
    case False
    have "n mod 10 < 10" by simp
    then have "is_digit (48 + n mod 10)" by (simp add: is_digit_def)
    then show ?thesis using 1 False by (subst str_nat_eq) simp
  qed
qed

lemma dec_value_snoc: "dec_value (ds @ [d]) = 10 * dec_value ds + (d - 48)"
  by (simp add: dec_value_def)

lemma dec_value_str_nat: "dec_value (str_nat n) = n"
proof (induction n rule: str_nat.induct)
  case (1 n)
  show ?case
  proof (cases "n < 10")
    case True
    then show ?thesis by (subst str_nat_eq) (simp add: dec_value_def)
  next
    case False
    then have "dec_value (str_nat (n div 10)) = n div 10" using 1 by simp
    then show ?thesis using False by (subst str_nat_eq) (simp add: dec_value_snoc)
  qed
qed

lemma str_int_nat: "str_int (int n) = str_nat n"
  by (simp add: str_int_def)

lemma str_int_diff: "b \<le> a \<Longrightarrow> str_int (int a - int b) = str_nat (a - b)"
  by (simp add: str_int_def nat_diff_distrib')

lemma length_filter_not:
  "length (filter (\<lambda>x. \<not> P x) xs) = length xs - length (filter P xs)"
  using length_filter_split[of xs P] by simp

subsection \<open>The loops and filters of the store\<close>

lemma first_match:
  "todo_id \<in> id_todo ` set xs \<Longrightarrow>
     \<exists>pre r post. xs = pre @ r # post \<and> id_todo r = todo_id \<and> todo_id \<notin> id_todo ` set pre"
proof -
  assume "todo_id \<in> id_todo ` set xs"
  then have "\<exists>x\<in>set xs. id_todo x = todo_id" by auto
  from split_list_first_prop[OF this]
  obtain pre r post where "xs = pre @ r # post" "id_todo r = todo_id"
    "\<forall>y\<in>set pre. id_todo y \<noteq> todo_id" by blast
  then show ?thesis by (intro exI[of _ pre] exI[of _ r] exI[of _ post]) auto
qed

lemma toggle_loop_absent: "todo_id \<notin> id_todo ` set xs \<Longrightarrow> toggle_loop todo_id xs = xs"
  by (induction xs) auto

lemma toggle_loop_at:
  "todo_id \<notin> id_todo ` set pre \<Longrightarrow> id_todo r = todo_id \<Longrightarrow>
     toggle_loop todo_id (pre @ r # post) = pre @ r\<lparr>completed := \<not> completed r\<rparr> # post"
  by (induction pre) auto

lemma toggle_loop_twice: "toggle_loop todo_id (toggle_loop todo_id xs) = xs"
  by (induction xs) auto

lemma toggle_loop_ids: "map id_todo (toggle_loop todo_id xs) = map id_todo xs"
  by (induction xs) auto

lemma edit_loop_absent: "todo_id \<notin> id_todo ` set xs \<Longrightarrow> edit_loop todo_id t xs = xs"
  by (induction xs) auto

lemma edit_loop_at:
  "todo_id \<notin> id_todo ` set pre \<Longrightarrow> id_todo r = todo_id \<Longrightarrow>
     edit_loop todo_id t (pre @ r # post) = pre @ r\<lparr>text := strip t\<rparr> # post"
  by (induction pre) auto

lemma edit_loop_ids: "map id_todo (edit_loop todo_id t xs) = map id_todo xs"
  by (induction xs) auto

lemma filter_absent: "todo_id \<notin> id_todo ` set xs \<Longrightarrow> filter (\<lambda>todo. id_todo todo \<noteq> todo_id) xs = xs"
  by (induction xs) auto

lemma filter_at:
  "distinct (map id_todo (pre @ r # post)) \<Longrightarrow> id_todo r = todo_id \<Longrightarrow>
     filter (\<lambda>todo. id_todo todo \<noteq> todo_id) (pre @ r # post) = pre @ post"
  by (auto simp: filter_absent)

lemma toggle_todo_state: "snd (toggle_todo todo_id s) = s\<lparr>todos := toggle_loop todo_id (todos s)\<rparr>"
  by (simp add: toggle_todo_def Let_def)

lemma delete_todo_state:
  "snd (delete_todo todo_id s) = s\<lparr>todos := filter (\<lambda>todo. id_todo todo \<noteq> todo_id) (todos s)\<rparr>"
  by (simp add: delete_todo_def Let_def)

lemma edit_todo_state:
  "snd (edit_todo todo_id new_text s) =
     (if new_text = [] \<or> strip new_text = [] then s
      else s\<lparr>todos := edit_loop todo_id new_text (todos s)\<rparr>)"
  by (simp add: edit_todo_def Let_def)

lemma clear_completed_state:
  "snd (clear_completed s) = s\<lparr>todos := filter (\<lambda>todo. \<not> completed todo) (todos s)\<rparr>"
  by (simp add: clear_completed_def Let_def)

subsection \<open>Operation sequences\<close>

lemma strip_Nil: "strip [] = []"
  by (simp add: strip_def)

lemma add_todo_state:
  "snd (add_todo t now s) =
     (if strip t = [] then s
      else \<lparr>todos = todos s @ [\<lparr>id_todo = next_id s, text = strip t, completed = False,
                                 created_at = now\<rparr>],
            next_id = next_id s + 1\<rparr>)"
  by (cases "t = []") (simp_all add: add_todo_def Let_def strip_Nil)

lemma ids_fresh_init: "ids_fresh init"
  by (simp add: ids_fresh_def init_def)

lemma ids_fresh_add: "ids_fresh s \<Longrightarrow> ids_fresh (snd (add_todo t now s))"
  by (auto simp: ids_fresh_def add_todo_state list_all_iff)

lemma ids_fresh_toggle: "ids_fresh s \<Longrightarrow> ids_fresh (snd (toggle_todo todo_id s))"
  by (simp add: ids_fresh_def toggle_todo_state toggle_loop_ids)

lemma ids_fresh_edit: "ids_fresh s \<Longrightarrow> ids_fresh (snd (edit_todo todo_id new_text s))"
  by (simp add: ids_fresh_def edit_todo_state edit_loop_ids)

lemma ids_fresh_filter:
  "ids_fresh s \<Longrightarrow> ids_fresh (s\<lparr>todos := filter P (todos s)\<rparr>)"
  by (auto simp: ids_fresh_def list_all_iff distinct_map_filter)

lemma ids_fresh_step: "ids_fresh s \<Longrightarrow> ids_fresh (apply_op s x)"
  by (cases x)
    (simp_all add: ids_fresh_add ids_fresh_toggle ids_fresh_edit ids_fresh_filter
      delete_todo_state clear_completed_state)

lemma ids_fresh_foldl: "ids_fresh s \<Longrightarrow> ids_fresh (foldl apply_op s ops)"
  by (induction ops arbitrary: s) (auto simp: ids_fresh_step)

lemma next_id_step: "next_id s \<le> next_id (apply_op s x)"
  by (cases x)
    (simp_all add: add_todo_state toggle_todo_state edit_todo_state delete_todo_state
      clear_completed_state)

lemma next_id_foldl: "next_id s \<le> next_id (foldl apply_op s ops)"
proof (induction ops arbitrary: s)
  case Nil
  show ?case by simp
next
  case (Cons x xs)
  have "next_id s \<le> next_id (apply_op s x)" by (rule next_id_step)
  also have "\<dots> \<le> next_id (foldl apply_op (apply_op s x) xs)" by (rule Cons.IH)
  finally show ?case by simp
qed

lemma store_markup_reached:
  "snd (add_todo (lit ''<b>'') (lit ''2024-01-01 10:00:00'') init) = store_markup"
proof -
  have "strip (lit ''<b>'') = lit ''<b>''" by (simp add: strip_def lit_def isspace_def)
  moreover have "lit ''<b>'' \<noteq> []" by (simp add: lit_def)
  ultimately show ?thesis
    by (simp add: add_todo_state init_def store_markup_def todo_markup_def)
qed

lemma run_append: "run (ops @ later) = foldl apply_op (run ops) later"
  by (simp add: run_def)

section \<open>The claims\<close>

text \<open>
  Claim C1: from the initial state, after any sequence of operations the ids in the
  store are pairwise distinct and lie between 1 and the counter; the counter never
  decreases when more operations follow; an add of a text that is not blank gives the new
  record the current counter value and increments the counter, and an add of a blank text
  changes nothing.
\<close>
theorem ids_unique_and_counter_monotone:
  "distinct (map id_todo (todos (run ops))) \<and>
   (\<forall>r\<in>set (todos (run ops)). 1 \<le> id_todo r \<and> id_todo r < next_id (run ops)) \<and>
   next_id (run ops) \<le> next_id (run (ops @ later)) \<and>
   (strip t \<noteq> [] \<longrightarrow>
      todos (run (ops @ [Add t now])) =
        todos (run ops) @ [\<lparr>id_todo = next_id (run ops), text = strip t, completed = False,
                             created_at = now\<rparr>] \<and>
      next_id (run (ops @ [Add t now])) = next_id (run ops) + 1) \<and>
   (strip t = [] \<longrightarrow> run (ops @ [Add t now]) = run ops)"
proof -
  have inv: "ids_fresh (run ops)"
    unfolding run_def by (rule ids_fresh_foldl[OF ids_fresh_init])
  have a: "distinct (map id_todo (todos (run ops)))"
    using inv by (simp add: ids_fresh_def)
  have b: "\<forall>r\<in>set (todos (run ops)). 1 \<le> id_todo r \<and> id_todo r < next_id (run ops)"
    using inv by (simp add: ids_fresh_def list_all_iff)
  have c: "next_id (run ops) \<le> next_id (run (ops @ later))"
    unfolding run_append by (rule next_id_foldl)
  have d: "run (ops @ [Add t now]) = snd (add_todo t now (run ops))"
    by (simp add: run_append)
  show ?thesis using a b c by (simp add: d add_todo_state)
qed

theorem ids_unique_and_counter_monotone_witness:
  "distinct (map id_todo (todos (run [Add (lit ''A'') (lit ''t1''), Add (lit '' B'') (lit ''t2''), Toggle 1, ClearCompleted]))) \<and>
   next_id (run [Add (lit ''A'') (lit ''t1''), Add (lit '' B'') (lit ''t2''), Toggle 1, ClearCompleted]) = 3 \<and>
   strip (lit ''C '') \<noteq> [] \<and>
   next_id (run ([Add (lit ''A'') (lit ''t1''), Add (lit '' B'') (lit ''t2''), Toggle 1, ClearCompleted] @ [Add (lit ''C '') (lit ''t3'')])) = 4 \<and>
   map id_todo (todos (run ([Add (lit ''A'') (lit ''t1''), Add (lit '' B'') (lit ''t2''), Toggle 1, ClearCompleted] @ [Add (lit ''C '') (lit ''t3'')]))) = [2, 3]"
proof -
  let ?ops = "[Add (lit ''A'') (lit ''t1''), Add (lit '' B'') (lit ''t2''), Toggle 1, ClearCompleted]"
  have s: "strip (lit ''A'') = lit ''A''" "strip (lit '' B'') = lit ''B''" "strip (lit ''C '') = lit ''C''"
    by (simp_all add: strip_def lit_def isspace_def)
  have ne: "lit ''A'' \<noteq> []" "lit ''B'' \<noteq> []" "lit ''C'' \<noteq> []"
    by (simp_all add: lit_def)
  have r: "run ?ops = \<lparr>todos = [\<lparr>id_todo = 2, text = lit ''B'', completed = False, created_at = lit ''t2''\<rparr>], next_id = 3\<rparr>"
    by (simp add: run_def init_def add_todo_state toggle_todo_state clear_completed_state s ne)
  show ?thesis
    using ids_unique_and_counter_monotone[of ?ops "[Add (lit ''C '') (lit ''t3'')]" "lit ''C ''" "lit ''t3''"]
    by (simp add: r s ne)
qed

text \<open>
  Claim C2: \<open>add_todo\<close> on an empty or white-space-only text returns the
  validation message and leaves the state as it was; on any other text it appends one
  record holding the stripped text, the current counter value as id and
  \<open>completed = False\<close>, increments the counter, keeps the earlier records and
  returns the empty message. The stripped text is the input without the white space at
  its two ends.
\<close>
theorem add_todo_validates_and_appends:
  "((\<forall>c\<in>set t. isspace c) \<longrightarrow>
      add_todo t now s = ((get_todos_display s, lit ''Please enter a todo item''), s)) \<and>
   (\<not> (\<forall>c\<in>set t. isspace c) \<longrightarrow>
      snd (add_todo t now s) =
        \<lparr>todos = todos s @ [\<lparr>id_todo = next_id s, text = strip t, completed = False,
                                created_at = now\<rparr>],
         next_id = next_id s + 1\<rparr> \<and>
      length (todos (snd (add_todo t now s))) = length (todos s) + 1 \<and>
      snd (fst (add_todo t now s)) = lit '''' \<and>
      strip t \<noteq> [] \<and> \<not> isspace (hd (strip t)) \<and> \<not> isspace (last (strip t))) \<and>
   (\<exists>a b. t = a @ strip t @ b \<and> (\<forall>c\<in>set a. isspace c) \<and> (\<forall>c\<in>set b. isspace c)) \<and>
   lit ''Please enter a todo item'' \<noteq> lit ''''"
proof -
  have a: "add_todo t now s = ((get_todos_display s, lit ''Please enter a todo item''), s)"
    if "\<forall>c\<in>set t. isspace c"
  proof -
    have "strip t = []" using that by (simp add: strip_empty_iff)
    then show ?thesis by (simp add: add_todo_def)
  qed
  have b: "snd (add_todo t now s) =
        \<lparr>todos = todos s @ [\<lparr>id_todo = next_id s, text = strip t, completed = False,
                                created_at = now\<rparr>],
         next_id = next_id s + 1\<rparr> \<and>
      length (todos (snd (add_todo t now s))) = length (todos s) + 1 \<and>
      snd (fst (add_todo t now s)) = lit '''' \<and>
      strip t \<noteq> [] \<and> \<not> isspace (hd (strip t)) \<and> \<not> isspace (last (strip t))"
    if "\<not> (\<forall>c\<in>set t. isspace c)"
  proof -
    have ne: "strip t \<noteq> []" using that by (simp add: strip_empty_iff)
    then have ne': "t \<noteq> []" using strip_Nil by blast
    have "snd (fst (add_todo t now s)) = lit ''''"
      using ne ne' by (simp add: add_todo_def Let_def)
    then show ?thesis using ne strip_hd[OF ne] strip_last[OF ne]
      by (simp add: add_todo_state)
  qed
  have c: "\<exists>a b. t = a @ strip t @ b \<and> (\<forall>c\<in>set a. isspace c) \<and> (\<forall>c\<in>set b. isspace c)"
  proof (intro exI conjI)
    show "t = takeWhile isspace t @ strip t @
        rev (takeWhile isspace (rev (dropWhile isspace t)))"
      by (rule strip_decomp)
    show "\<forall>c\<in>set (takeWhile isspace t). isspace c"
      by (auto dest: set_takeWhileD)
    show "\<forall>c\<in>set (rev (takeWhile isspace (rev (dropWhile isspace t)))). isspace c"
      by (auto dest: set_takeWhileD)
  qed
  have d: "lit ''Please enter a todo item'' \<noteq> lit ''''"
    by (simp add: lit_def)
  show ?thesis using a b c d by blast
qed

theorem add_todo_validates_and_appends_witness:
  "list_all isspace (lit ''   '') \<and>
   add_todo (lit ''   '') (lit ''t3'') store_ab =
     ((get_todos_display store_ab, lit ''Please enter a todo item''), store_ab) \<and>
   \<not> list_all isspace (lit '' Buy milk  '') \<and>
   todos (snd (add_todo (lit '' Buy milk  '') (lit ''t3'') store_ab)) =
     [todo_a, todo_b,
      \<lparr>id_todo = 3, text = lit ''Buy milk'', completed = False, created_at = lit ''t3''\<rparr>] \<and>
   next_id (snd (add_todo (lit '' Buy milk  '') (lit ''t3'') store_ab)) = 4"
proof -
  have h1: "\<forall>c\<in>set (lit ''   ''). isspace c" by (simp add: lit_def isspace_def)
  have h2: "\<not> (\<forall>c\<in>set (lit '' Buy milk  ''). isspace c)" by (simp add: lit_def isspace_def)
  have s: "strip (lit '' Buy milk  '') = lit ''Buy milk''"
    by (simp add: strip_def lit_def isspace_def)
  have a: "add_todo (lit ''   '') (lit ''t3'') store_ab =
      ((get_todos_display store_ab, lit ''Please enter a todo item''), store_ab)"
    using add_todo_validates_and_appends[of "lit ''   ''" "lit ''t3''" store_ab] h1 by blast
  have "snd (add_todo (lit '' Buy milk  '') (lit ''t3'') store_ab) =
      \<lparr>todos = todos store_ab @
         [\<lparr>id_todo = next_id store_ab, text = strip (lit '' Buy milk  ''), completed = False,
           created_at = lit ''t3''\<rparr>],
       next_id = next_id store_ab + 1\<rparr>"
    using add_todo_validates_and_appends[of "lit '' Buy milk  ''" "lit ''t3''" store_ab] h2
    by blast
  then have b: "todos (snd (add_todo (lit '' Buy milk  '') (lit ''t3'') store_ab)) =
      [todo_a, todo_b,
       \<lparr>id_todo = 3, text = lit ''Buy milk'', completed = False, created_at = lit ''t3''\<rparr>]"
    and c: "next_id (snd (add_todo (lit '' Buy milk  '') (lit ''t3'') store_ab)) = 4"
    by (simp_all add: s store_ab_def)
  show ?thesis using h1 h2 a b c by (simp only: list_all_iff) blast
qed

text \<open>
  Claim C3, as stated, fails: \<open>get_todos_display\<close> puts the text of a record into the row
  as it is. Adding the text \<open><b>\<close> to the initial store gives a store of one record;
  its output is the page with \<open><b>\<close> in the text element, and it is not the page with
  any string free of angle brackets in that place.
\<close>
theorem text_escaped_counterexample:
  "snd (add_todo (lit ''<b>'') (lit ''2024-01-01 10:00:00'') init) = store_markup \<and>
   get_todos_display store_markup =
     style_html @ stats_html 1 0 1 @ todo_seg0 @ lit '''' @ todo_seg1 @ lit ''<b>'' @
     todo_seg2 @ lit ''2024-01-01 10:00:00'' @ todo_seg3 @ lit ''</div>'' \<and>
   \<not> (\<exists>e. get_todos_display store_markup =
            style_html @ stats_html 1 0 1 @ todo_seg0 @ lit '''' @ todo_seg1 @ e @
            todo_seg2 @ lit ''2024-01-01 10:00:00'' @ todo_seg3 @ lit ''</div>'' \<and>
          set e \<inter> set (lit ''<>'') = {})"
proof (intro conjI)
  show "snd (add_todo (lit ''<b>'') (lit ''2024-01-01 10:00:00'') init) = store_markup"
    by (rule store_markup_reached)
next
  show "get_todos_display store_markup =
     style_html @ stats_html 1 0 1 @ todo_seg0 @ lit '''' @ todo_seg1 @ lit ''<b>'' @
     todo_seg2 @ lit ''2024-01-01 10:00:00'' @ todo_seg3 @ lit ''</div>''"
    by (rule get_todos_display_markup)
next
  show "\<not> (\<exists>e. get_todos_display store_markup =
            style_html @ stats_html 1 0 1 @ todo_seg0 @ lit '''' @ todo_seg1 @ e @
            todo_seg2 @ lit ''2024-01-01 10:00:00'' @ todo_seg3 @ lit ''</div>'' \<and>
          set e \<inter> set (lit ''<>'') = {})"
  proof
    assume "\<exists>e. get_todos_display store_markup =
            style_html @ stats_html 1 0 1 @ todo_seg0 @ lit '''' @ todo_seg1 @ e @
            todo_seg2 @ lit ''2024-01-01 10:00:00'' @ todo_seg3 @ lit ''</div>'' \<and>
          set e \<inter> set (lit ''<>'') = {}"
    then obtain e where
      e: "get_todos_display store_markup =
            style_html @ stats_html 1 0 1 @ todo_seg0 @ lit '''' @ todo_seg1 @ e @
            todo_seg2 @ lit ''2024-01-01 10:00:00'' @ todo_seg3 @ lit ''</div>''"
      and clean: "set e \<inter> set (lit ''<>'') = {}"
      by blast
    from e have "e = lit ''<b>''"
      unfolding get_todos_display_markup by simp
    with clean show False by (simp add: lit_def)
  qed
qed

text \<open>
  Claim C3, amended: the text of every record is inserted verbatim. The output of a
  non-empty store is the style block, the statistics, one row per record and the closing
  tag, where a row is the row template with the raw text between the opening tag of the
  text element and its closing tag; so every character of the text, markup-significant or
  not, stands unchanged in the output.
\<close>
theorem text_inserted_verbatim:
  "(todos s \<noteq> [] \<longrightarrow>
      get_todos_display s =
        style_html @
        stats_html (int (length (todos s))) (int (length (filter completed (todos s))))
          (int (length (todos s)) - int (length (filter completed (todos s)))) @
        concat (map (\<lambda>todo.
          todo_seg0 @ (if completed todo then lit ''todo-completed'' else lit '''') @
          todo_seg1 @ text todo @ todo_seg2 @ created_at todo @ todo_seg3) (todos s)) @
        lit ''</div>'') \<and>
   (\<forall>todo\<in>set (todos s).
      sublist (todo_seg1 @ text todo @ todo_seg2) (get_todos_display s) \<and>
      set (text todo) \<subseteq> set (get_todos_display s))"
proof -
  have a: "get_todos_display s =
        style_html @
        stats_html (int (length (todos s))) (int (length (filter completed (todos s))))
          (int (length (todos s)) - int (length (filter completed (todos s)))) @
        concat (map (\<lambda>todo.
          todo_seg0 @ (if completed todo then lit ''todo-completed'' else lit '''') @
          todo_seg1 @ text todo @ todo_seg2 @ created_at todo @ todo_seg3) (todos s)) @
        lit ''</div>''" if "todos s \<noteq> []"
  proof -
    have f: "todo_html = (\<lambda>todo.
          todo_seg0 @ (if completed todo then lit ''todo-completed'' else lit '''') @
          todo_seg1 @ text todo @ todo_seg2 @ created_at todo @ todo_seg3)"
      by (rule ext) (rule todo_html_eq)
    show ?thesis using get_todos_display_nonempty[OF that] unfolding f .
  qed
  have b: "sublist (todo_seg1 @ text todo @ todo_seg2) (get_todos_display s) \<and>
      set (text todo) \<subseteq> set (get_todos_display s)" if mem: "todo \<in> set (todos s)" for todo
  proof -
    from mem have ne: "todos s \<noteq> []" by auto
    from split_list[OF mem] obtain ys zs where d: "todos s = ys @ todo # zs" by blast
    let ?cls = "if completed todo then lit ''todo-completed'' else lit ''''"
    let ?pre = "style_html @
        stats_html (int (length (todos s))) (int (length (filter completed (todos s))))
          (int (length (todos s)) - int (length (filter completed (todos s)))) @
        concat (map todo_html ys) @ todo_seg0 @ ?cls"
    let ?post = "created_at todo @ todo_seg3 @ concat (map todo_html zs) @ lit ''</div>''"
    have "concat (map todo_html (todos s)) =
        concat (map todo_html ys) @ todo_html todo @ concat (map todo_html zs)"
      by (simp add: d)
    then have e: "get_todos_display s = ?pre @ (todo_seg1 @ text todo @ todo_seg2) @ ?post"
      using get_todos_display_nonempty[OF ne] by (simp add: todo_html_eq)
    have "sublist (todo_seg1 @ text todo @ todo_seg2) (get_todos_display s)"
      unfolding sublist_def using e by blast
    moreover have "set (text todo) \<subseteq> set (get_todos_display s)"
      by (subst e) auto
    ultimately show ?thesis by blast
  qed
  show ?thesis using a b by blast
qed

theorem text_inserted_verbatim_witness:
  "todos store_markup \<noteq> [] \<and> todo_markup \<in> set (todos store_markup) \<and>
   sublist (todo_seg1 @ lit ''<b>'' @ todo_seg2) (get_todos_display store_markup) \<and>
   set (lit ''<b>'') \<subseteq> set (get_todos_display store_markup)"
proof -
  have h: "todos store_markup \<noteq> []" "todo_markup \<in> set (todos store_markup)"
    by (simp_all add: store_markup_def)
  have t: "text todo_markup = lit ''<b>''" by (simp add: todo_markup_def)
  have "sublist (todo_seg1 @ text todo_markup @ todo_seg2) (get_todos_display store_markup) \<and>
      set (text todo_markup) \<subseteq> set (get_todos_display store_markup)"
    using text_inserted_verbatim[of store_markup] h(2) by blast
  then show ?thesis using h unfolding t by blast
qed

text \<open>
  Claim C4: for an id present in the store, \<open>toggle_todo\<close> negates
  \<open>completed\<close> of the first record with that id (the only one when the ids are
  distinct) and changes nothing else; toggling twice gives the state back.
\<close>
theorem toggle_flips_one_and_is_involution:
  assumes "todo_id \<in> id_todo ` set (todos s)"
  shows "(\<exists>pre r post.
            todos s = pre @ r # post \<and> id_todo r = todo_id \<and>
            todo_id \<notin> id_todo ` set pre \<and>
            (distinct (map id_todo (todos s)) \<longrightarrow> todo_id \<notin> id_todo ` set post) \<and>
            todos (snd (toggle_todo todo_id s)) = pre @ r\<lparr>completed := \<not> completed r\<rparr> # post) \<and>
         next_id (snd (toggle_todo todo_id s)) = next_id s \<and>
         snd (toggle_todo todo_id (snd (toggle_todo todo_id s))) = s"
proof -
  from first_match[OF assms] obtain pre r post where
    d: "todos s = pre @ r # post" "id_todo r = todo_id" "todo_id \<notin> id_todo ` set pre"
    by blast
  have t: "todos (snd (toggle_todo todo_id s)) = pre @ r\<lparr>completed := \<not> completed r\<rparr> # post"
    using toggle_loop_at[OF d(3) d(2), of post] d(1) by (simp add: toggle_todo_state)
  have u: "distinct (map id_todo (todos s)) \<longrightarrow> todo_id \<notin> id_todo ` set post"
    using d(1) d(2) by auto
  have "\<exists>pre r post.
            todos s = pre @ r # post \<and> id_todo r = todo_id \<and>
            todo_id \<notin> id_todo ` set pre \<and>
            (distinct (map id_todo (todos s)) \<longrightarrow> todo_id \<notin> id_todo ` set post) \<and>
            todos (snd (toggle_todo todo_id s)) = pre @ r\<lparr>completed := \<not> completed r\<rparr> # post"
    using d t u by blast
  moreover have "next_id (snd (toggle_todo todo_id s)) = next_id s"
    by (simp add: toggle_todo_state)
  moreover have "snd (toggle_todo todo_id (snd (toggle_todo todo_id s))) = s"
    by (simp add: toggle_todo_state toggle_loop_twice)
  ultimately show ?thesis by blast
qed

theorem toggle_flips_one_and_is_involution_witness:
  "2 \<in> id_todo ` set (todos store_ab) \<and>
   todos (snd (toggle_todo 2 store_ab)) = [todo_a, todo_b\<lparr>completed := True\<rparr>] \<and>
   snd (toggle_todo 2 (snd (toggle_todo 2 store_ab))) = store_ab"
proof -
  have h: "2 \<in> id_todo ` set (todos store_ab)"
    by (simp add: store_ab_def todo_a_def todo_b_def)
  have t: "todos (snd (toggle_todo 2 store_ab)) = [todo_a, todo_b\<lparr>completed := True\<rparr>]"
    by (simp add: toggle_todo_state store_ab_def todo_a_def todo_b_def)
  show ?thesis
    using toggle_flips_one_and_is_involution[OF h] h t by simp
qed

text \<open>
  Claim C5: for an id that no record has, \<open>toggle_todo\<close>,
  \<open>edit_todo\<close> and \<open>delete_todo\<close> return the display of the unchanged
  state and leave the state as it was. The three methods contain no \<open>raise\<close>, and
  the keys they read are set on every record by \<open>add_todo\<close>, so they are total
  functions: a call always returns.
\<close>
theorem absent_id_is_silent_noop:
  assumes "todo_id \<notin> id_todo ` set (todos s)"
  shows "toggle_todo todo_id s = (get_todos_display s, s) \<and>
         edit_todo todo_id new_text s = (get_todos_display s, s) \<and>
         delete_todo todo_id s = (get_todos_display s, s)"
  using assms
  by (simp add: toggle_todo_def edit_todo_def delete_todo_def Let_def toggle_loop_absent
      edit_loop_absent filter_absent)

theorem absent_id_is_silent_noop_witness:
  "7 \<notin> id_todo ` set (todos store_ab) \<and>
   toggle_todo 7 store_ab = (get_todos_display store_ab, store_ab) \<and>
   edit_todo 7 (lit ''C'') store_ab = (get_todos_display store_ab, store_ab) \<and>
   delete_todo 7 store_ab = (get_todos_display store_ab, store_ab)"
proof -
  have h: "7 \<notin> id_todo ` set (todos store_ab)"
    by (simp add: store_ab_def todo_a_def todo_b_def)
  show ?thesis
    using absent_id_is_silent_noop[OF h, of "lit ''C''"] h by simp
qed

text \<open>
  Claim C6: with distinct ids, \<open>delete_todo\<close> on an id present removes the
  one record with that id and keeps the others in order; on an id that is absent it
  leaves the state as it was.
\<close>
theorem delete_removes_the_match:
  "(distinct (map id_todo (todos s)) \<and> todo_id \<in> id_todo ` set (todos s) \<longrightarrow>
      (\<exists>pre r post.
         todos s = pre @ r # post \<and> id_todo r = todo_id \<and>
         todos (snd (delete_todo todo_id s)) = pre @ post \<and>
         length (todos s) = length (todos (snd (delete_todo todo_id s))) + 1)) \<and>
   (todo_id \<notin> id_todo ` set (todos s) \<longrightarrow> snd (delete_todo todo_id s) = s) \<and>
   next_id (snd (delete_todo todo_id s)) = next_id s"
proof -
  have a: "\<exists>pre r post.
         todos s = pre @ r # post \<and> id_todo r = todo_id \<and>
         todos (snd (delete_todo todo_id s)) = pre @ post \<and>
         length (todos s) = length (todos (snd (delete_todo todo_id s))) + 1"
    if dist: "distinct (map id_todo (todos s))" and mem: "todo_id \<in> id_todo ` set (todos s)"
  proof -
    from first_match[OF mem] obtain pre r post where
      d: "todos s = pre @ r # post" "id_todo r = todo_id" by blast
    have "todos (snd (delete_todo todo_id s)) = pre @ post"
      using filter_at[of pre r post todo_id] dist d by (simp add: delete_todo_state)
    then show ?thesis using d by auto
  qed
  have b: "snd (delete_todo todo_id s) = s" if "todo_id \<notin> id_todo ` set (todos s)"
    using that by (simp add: delete_todo_state filter_absent)
  have c: "next_id (snd (delete_todo todo_id s)) = next_id s"
    by (simp add: delete_todo_state)
  show ?thesis using a b c by blast
qed

theorem delete_removes_the_match_witness:
  "distinct (map id_todo (todos store_ab)) \<and> 1 \<in> id_todo ` set (todos store_ab) \<and>
   todos (snd (delete_todo 1 store_ab)) = [todo_b] \<and>
   length (todos store_ab) = length (todos (snd (delete_todo 1 store_ab))) + 1 \<and>
   7 \<notin> id_todo ` set (todos store_ab) \<and> snd (delete_todo 7 store_ab) = store_ab"
proof -
  have h: "distinct (map id_todo (todos store_ab))" "1 \<in> id_todo ` set (todos store_ab)"
    "7 \<notin> id_todo ` set (todos store_ab)"
    by (simp_all add: store_ab_def todo_a_def todo_b_def)
  have t: "todos (snd (delete_todo 1 store_ab)) = [todo_b]"
    by (simp add: delete_todo_state store_ab_def todo_a_def todo_b_def)
  have l: "length (todos store_ab) = length (todos (snd (delete_todo 1 store_ab))) + 1"
    using delete_removes_the_match[of store_ab 1] h by blast
  have n: "snd (delete_todo 7 store_ab) = store_ab"
    using delete_removes_the_match[of store_ab 7] h by blast
  show ?thesis using h t l n by blast
qed

text \<open>
  Claim C7: \<open>edit_todo\<close> with an empty or white-space-only text leaves the
  state as it was; with any other text and an id present it replaces the text of the
  first record with that id by the stripped text and changes nothing else.
\<close>
theorem edit_changes_only_the_text:
  "((new_text = [] \<or> (\<forall>c\<in>set new_text. isspace c)) \<longrightarrow>
      edit_todo todo_id new_text s = (get_todos_display s, s)) \<and>
   (\<not> (\<forall>c\<in>set new_text. isspace c) \<and> todo_id \<in> id_todo ` set (todos s) \<longrightarrow>
      strip new_text \<noteq> [] \<and>
      (\<exists>pre r post.
         todos s = pre @ r # post \<and> id_todo r = todo_id \<and>
         todo_id \<notin> id_todo ` set pre \<and>
         todos (snd (edit_todo todo_id new_text s)) = pre @ r\<lparr>text := strip new_text\<rparr> # post) \<and>
      length (todos (snd (edit_todo todo_id new_text s))) = length (todos s) \<and>
      next_id (snd (edit_todo todo_id new_text s)) = next_id s)"
proof -
  have a: "edit_todo todo_id new_text s = (get_todos_display s, s)"
    if "new_text = [] \<or> (\<forall>c\<in>set new_text. isspace c)"
    using that by (auto simp: edit_todo_def strip_empty_iff)
  have b: "strip new_text \<noteq> [] \<and>
      (\<exists>pre r post.
         todos s = pre @ r # post \<and> id_todo r = todo_id \<and>
         todo_id \<notin> id_todo ` set pre \<and>
         todos (snd (edit_todo todo_id new_text s)) = pre @ r\<lparr>text := strip new_text\<rparr> # post) \<and>
      length (todos (snd (edit_todo todo_id new_text s))) = length (todos s) \<and>
      next_id (snd (edit_todo todo_id new_text s)) = next_id s"
    if ns: "\<not> (\<forall>c\<in>set new_text. isspace c)" and mem: "todo_id \<in> id_todo ` set (todos s)"
  proof -
    have ne: "strip new_text \<noteq> []" using ns by (simp add: strip_empty_iff)
    then have ne': "new_text \<noteq> []" using ns by auto
    from first_match[OF mem] obtain pre r post where
      d: "todos s = pre @ r # post" "id_todo r = todo_id" "todo_id \<notin> id_todo ` set pre"
      by blast
    have e: "todos (snd (edit_todo todo_id new_text s)) = pre @ r\<lparr>text := strip new_text\<rparr> # post"
      using edit_loop_at[OF d(3) d(2), of new_text post] d(1) ne ne'
      by (simp add: edit_todo_state)
    have "length (todos (snd (edit_todo todo_id new_text s))) = length (todos s)"
      using e d(1) by simp
    moreover have "next_id (snd (edit_todo todo_id new_text s)) = next_id s"
      by (simp add: edit_todo_state)
    ultimately show ?thesis using ne d e by blast
  qed
  show ?thesis using a b by blast
qed

theorem edit_changes_only_the_text_witness:
  "list_all isspace (lit ''  '') \<and>
   edit_todo 2 (lit ''  '') store_ab = (get_todos_display store_ab, store_ab) \<and>
   \<not> list_all isspace (lit ''  C '') \<and> 2 \<in> id_todo ` set (todos store_ab) \<and>
   todos (snd (edit_todo 2 (lit ''  C '') store_ab)) = [todo_a, todo_b\<lparr>text := lit ''C''\<rparr>] \<and>
   next_id (snd (edit_todo 2 (lit ''  C '') store_ab)) = next_id store_ab"
proof -
  have h: "\<forall>c\<in>set (lit ''  ''). isspace c" "\<not> (\<forall>c\<in>set (lit ''  C ''). isspace c)"
    "2 \<in> id_todo ` set (todos store_ab)"
    by (simp_all add: lit_def isspace_def store_ab_def todo_a_def todo_b_def)
  have s: "strip (lit ''  C '') = lit ''C''"
    by (simp add: strip_def lit_def isspace_def)
  have ne: "lit ''  C '' \<noteq> []" "lit ''C'' \<noteq> []" by (simp_all add: lit_def)
  have t: "todos (snd (edit_todo 2 (lit ''  C '') store_ab)) = [todo_a, todo_b\<lparr>text := lit ''C''\<rparr>]"
    by (simp add: edit_todo_state s ne store_ab_def todo_a_def todo_b_def)
  have a: "edit_todo 2 (lit ''  '') store_ab = (get_todos_display store_ab, store_ab)"
    using edit_changes_only_the_text[of "lit ''  ''" 2 store_ab] h(1) by blast
  have b: "next_id (snd (edit_todo 2 (lit ''  C '') store_ab)) = next_id store_ab"
    using edit_changes_only_the_text[of "lit ''  C ''" 2 store_ab] h(2,3) by blast
  show ?thesis using h t a b by (simp only: list_all_iff) blast
qed

text \<open>
  Claim C8: \<open>clear_completed\<close> keeps exactly the records that are not
  completed, in their order, and running it a second time changes nothing more.
\<close>
theorem clear_completed_removes_exactly_completed:
  "(\<forall>r. r \<in> set (todos (snd (clear_completed s))) \<longleftrightarrow> r \<in> set (todos s) \<and> \<not> completed r) \<and>
   subseq (todos (snd (clear_completed s))) (todos s) \<and>
   length (todos s) =
     length (todos (snd (clear_completed s))) + length (filter completed (todos s)) \<and>
   next_id (snd (clear_completed s)) = next_id s \<and>
   clear_completed (snd (clear_completed s)) = clear_completed s"
proof -
  have "length (todos s) =
     length (todos (snd (clear_completed s))) + length (filter completed (todos s))"
    using length_filter_split[of "todos s" completed] by (simp add: clear_completed_state)
  moreover have "clear_completed (snd (clear_completed s)) = clear_completed s"
    by (simp add: clear_completed_def Let_def)
  ultimately show ?thesis by (auto simp: clear_completed_state)
qed

theorem clear_completed_removes_exactly_completed_witness:
  "todos (snd (clear_completed (snd (toggle_todo 1 store_ab)))) = [todo_b] \<and>
   subseq [todo_b] (todos (snd (toggle_todo 1 store_ab))) \<and>
   clear_completed (snd (clear_completed (snd (toggle_todo 1 store_ab)))) =
     clear_completed (snd (toggle_todo 1 store_ab))"
proof -
  have t: "todos (snd (clear_completed (snd (toggle_todo 1 store_ab)))) = [todo_b]"
    by (simp add: clear_completed_state toggle_todo_state store_ab_def todo_a_def todo_b_def)
  show ?thesis
    using clear_completed_removes_exactly_completed[of "snd (toggle_todo 1 store_ab)"] t
    by simp
qed

text \<open>
  Claim C9: for an empty store \<open>get_todos_display\<close> returns the empty-state
  block, character for character. Otherwise the output is the style block, then the
  statistics block with a decimal numeral after each of \<open>Total:\<close>,
  \<open>Completed:\<close> and \<open>Pending:\<close>, then the rows and the closing tag. The three
  numerals denote the number of records, the number of completed records and the number
  of records that are not completed, so pending = total - completed and
  total = completed + pending.
\<close>
theorem display_empty_state_and_counts:
  \<open>(todos s = [] \<longrightarrow>
      get_todos_display s = lit (
        ''\<newline>'' @
        ''            <div style="text-align: center; padding: 40px; color: #666;">\<newline>'' @
        ''                <h3>No todos yet!</h3>\<newline>'' @
        ''                <p>Add your first todo above to get started.</p>\<newline>'' @
        ''            </div>\<newline>'' @
        ''            '')) \<and>
   (todos s \<noteq> [] \<longrightarrow>
      (\<exists>T C P.
         get_todos_display s =
           style_html @ lit (
             ''\<newline>'' @
             ''            <div class="stats">\<newline>'' @
             ''                <strong>Total: '') @ T @ lit (
             ''</strong> | \<newline>'' @
             ''                <span style="color: #28a745;">Completed: '') @ C @ lit (
             ''</span> | \<newline>'' @
             ''                <span style="color: #ffc107;">Pending: '') @ P @ lit (
             ''</span>\<newline>'' @
             ''            </div>\<newline>'' @
             ''        '') @
           concat (map todo_html (todos s)) @ lit ''</div>'' \<and>
         T \<noteq> [] \<and> C \<noteq> [] \<and> P \<noteq> [] \<and>
         list_all is_digit T \<and> list_all is_digit C \<and> list_all is_digit P \<and>
         dec_value T = length (todos s) \<and>
         dec_value C = length (filter completed (todos s)) \<and>
         dec_value P = length (filter (\<lambda>todo. \<not> completed todo) (todos s)) \<and>
         dec_value P = dec_value T - dec_value C \<and>
         dec_value T = dec_value C + dec_value P))\<close>
proof -
  let ?n = "length (todos s)"
  let ?c = "length (filter completed (todos s))"
  let ?p = "length (filter (\<lambda>todo. \<not> completed todo) (todos s))"
  have le: "?c \<le> ?n" by simp
  have p: "?p = ?n - ?c" by (rule length_filter_not)
  have np: "?n = ?c + ?p" by (rule length_filter_split)
  have a: "get_todos_display s = empty_html" if "todos s = []"
    using that by (rule get_todos_display_empty)
  have b: "get_todos_display s =
      style_html @ stats_seg0 @ str_nat ?n @ stats_seg1 @ str_nat ?c @ stats_seg2 @
      str_nat ?p @ stats_seg3 @ concat (map todo_html (todos s)) @ lit ''</div>''"
    if "todos s \<noteq> []"
    using get_todos_display_nonempty[OF that]
    by (simp add: stats_html_def str_int_nat str_int_diff[OF le] p)
  have v: "dec_value (str_nat ?p) = dec_value (str_nat ?n) - dec_value (str_nat ?c)"
    "dec_value (str_nat ?n) = dec_value (str_nat ?c) + dec_value (str_nat ?p)"
    using p np by (simp_all only: dec_value_str_nat)
  show ?thesis
    unfolding empty_html_def[symmetric] stats_seg0_def[symmetric] stats_seg1_def[symmetric] stats_seg2_def[symmetric] stats_seg3_def[symmetric]
    using a b v str_nat_nonempty str_nat_digits dec_value_str_nat by blast
qed

theorem display_empty_state_and_counts_witness:
  \<open>todos init = [] \<and>
   get_todos_display init = lit (
     ''\<newline>'' @
     ''            <div style="text-align: center; padding: 40px; color: #666;">\<newline>'' @
     ''                <h3>No todos yet!</h3>\<newline>'' @
     ''                <p>Add your first todo above to get started.</p>\<newline>'' @
     ''            </div>\<newline>'' @
     ''            '') \<and>
   todos (snd (toggle_todo 1 store_ab)) \<noteq> [] \<and>
   (\<exists>T C P.
      get_todos_display (snd (toggle_todo 1 store_ab)) =
        style_html @ lit (
          ''\<newline>'' @
          ''            <div class="stats">\<newline>'' @
          ''                <strong>Total: '') @ T @ lit (
          ''</strong> | \<newline>'' @
          ''                <span style="color: #28a745;">Completed: '') @ C @ lit (
          ''</span> | \<newline>'' @
          ''                <span style="color: #ffc107;">Pending: '') @ P @ lit (
          ''</span>\<newline>'' @
          ''            </div>\<newline>'' @
          ''        '') @
        concat (map todo_html (todos (snd (toggle_todo 1 store_ab)))) @ lit ''</div>'' \<and>
      dec_value T = 2 \<and> dec_value C = 1 \<and> dec_value P = 1) \<and>
   get_todos_display (snd (toggle_todo 1 store_ab)) =
     style_html @ lit (
       ''\<newline>'' @
       ''            <div class="stats">\<newline>'' @
       ''                <strong>Total: 2</strong> | \<newline>'' @
       ''                <span style="color: #28a745;">Completed: 1</span> | \<newline>'' @
       ''                <span style="color: #ffc107;">Pending: 1</span>\<newline>'' @
       ''            </div>\<newline>'' @
       ''        '') @
     concat (map todo_html (todos (snd (toggle_todo 1 store_ab)))) @ lit ''</div>''\<close>
proof -
  let ?s = "snd (toggle_todo 1 store_ab)"
  have e: "todos init = []" by (simp add: init_def)
  have t: "todos ?s = [todo_a\<lparr>completed := True\<rparr>, todo_b]"
    by (simp add: toggle_todo_state store_ab_def todo_a_def todo_b_def)
  have ne: "todos ?s \<noteq> []" by (simp add: t)
  have n: "length (todos ?s) = 2" "length (filter completed (todos ?s)) = 1"
    "length (filter (\<lambda>todo. \<not> completed todo) (todos ?s)) = 1"
    by (simp_all add: t todo_a_def todo_b_def)
  note thm0 = display_empty_state_and_counts[of init]
  note thm1 = display_empty_state_and_counts[of ?s]
  have d0: \<open>get_todos_display init = lit (
     ''\<newline>'' @
     ''            <div style="text-align: center; padding: 40px; color: #666;">\<newline>'' @
     ''                <h3>No todos yet!</h3>\<newline>'' @
     ''                <p>Add your first todo above to get started.</p>\<newline>'' @
     ''            </div>\<newline>'' @
     ''            '')\<close>
    using thm0 e by blast
  have d1: \<open>(\<exists>T C P.
      get_todos_display (snd (toggle_todo 1 store_ab)) =
        style_html @ lit (
          ''\<newline>'' @
          ''            <div class="stats">\<newline>'' @
          ''                <strong>Total: '') @ T @ lit (
          ''</strong> | \<newline>'' @
          ''                <span style="color: #28a745;">Completed: '') @ C @ lit (
          ''</span> | \<newline>'' @
          ''                <span style="color: #ffc107;">Pending: '') @ P @ lit (
          ''</span>\<newline>'' @
          ''            </div>\<newline>'' @
          ''        '') @
        concat (map todo_html (todos (snd (toggle_todo 1 store_ab)))) @ lit ''</div>'' \<and>
      dec_value T = 2 \<and> dec_value C = 1 \<and> dec_value P = 1)\<close>
    using thm1 ne unfolding n by blast
  have s2: "str_int 2 = lit ''2''" "str_int 1 = lit ''1''"
    by (simp_all add: str_int_def str_nat_eq lit_def)
  have d2: \<open>get_todos_display (snd (toggle_todo 1 store_ab)) =
     style_html @ lit (
       ''\<newline>'' @
       ''            <div class="stats">\<newline>'' @
       ''                <strong>Total: 2</strong> | \<newline>'' @
       ''                <span style="color: #28a745;">Completed: 1</span> | \<newline>'' @
       ''                <span style="color: #ffc107;">Pending: 1</span>\<newline>'' @
       ''            </div>\<newline>'' @
       ''        '') @
     concat (map todo_html (todos (snd (toggle_todo 1 store_ab)))) @ lit ''</div>''\<close>
    using get_todos_display_nonempty[OF ne] unfolding n
    by (simp add: stats_html_def stats_seg0_def stats_seg1_def stats_seg2_def stats_seg3_def
        s2 lit_def)
  show ?thesis using e ne d0 d1 d2 by blast
qed

text \<open>
  Claim C10: every mutating method returns the display of the state it leaves;
  \<open>add_todo\<close> returns it with the validation message when it changed nothing
  (the text was blank) and with the empty string otherwise.
\<close>
theorem operations_return_the_display:
  "fst (toggle_todo todo_id s) = get_todos_display (snd (toggle_todo todo_id s)) \<and>
   fst (delete_todo todo_id s) = get_todos_display (snd (delete_todo todo_id s)) \<and>
   fst (edit_todo todo_id new_text s) = get_todos_display (snd (edit_todo todo_id new_text s)) \<and>
   fst (clear_completed s) = get_todos_display (snd (clear_completed s)) \<and>
   fst (fst (add_todo t now s)) = get_todos_display (snd (add_todo t now s)) \<and>
   snd (fst (add_todo t now s)) =
     (if list_all isspace t then lit ''Please enter a todo item'' else lit '''') \<and>
   (list_all isspace t \<longleftrightarrow> snd (add_todo t now s) = s)"
proof -
  have blank: "list_all isspace t \<longleftrightarrow> strip t = []"
    by (simp add: strip_empty_iff list_all_iff)
  have "snd (add_todo t now s) = s \<longleftrightarrow> strip t = []"
  proof
    assume e: "snd (add_todo t now s) = s"
    show "strip t = []"
    proof (rule ccontr)
      assume "strip t \<noteq> []"
      then have "next_id (snd (add_todo t now s)) = next_id s + 1"
        by (simp add: add_todo_state)
      with e show False by simp
    qed
  next
    assume "strip t = []"
    then show "snd (add_todo t now s) = s" by (simp add: add_todo_state)
  qed
  moreover have "snd (fst (add_todo t now s)) =
      (if strip t = [] then lit ''Please enter a todo item'' else lit '''')"
    by (cases "t = []") (simp_all add: add_todo_def Let_def strip_Nil)
  moreover have "fst (fst (add_todo t now s)) = get_todos_display (snd (add_todo t now s))"
    by (simp add: add_todo_def Let_def)
  ultimately show ?thesis
    by (simp add: blank toggle_todo_def delete_todo_def edit_todo_def clear_completed_def
        Let_def)
qed

theorem operations_return_the_display_witness:
  "fst (toggle_todo 1 store_ab) = get_todos_display (snd (toggle_todo 1 store_ab)) \<and>
   fst (delete_todo 1 store_ab) = get_todos_display (snd (delete_todo 1 store_ab)) \<and>
   fst (edit_todo 1 (lit ''C'') store_ab) = get_todos_display (snd (edit_todo 1 (lit ''C'') store_ab)) \<and>
   fst (clear_completed store_ab) = get_todos_display (snd (clear_completed store_ab)) \<and>
   add_todo (lit '' '') (lit ''t3'') store_ab =
     ((get_todos_display store_ab, lit ''Please enter a todo item''), store_ab) \<and>
   snd (fst (add_todo (lit ''C'') (lit ''t3'') store_ab)) = lit ''''"
proof -
  have s: "strip (lit '' '') = []" "strip (lit ''C'') = lit ''C''"
    by (simp_all add: strip_def lit_def isspace_def)
  have ne: "lit ''C'' \<noteq> []" by (simp add: lit_def)
  have a: "snd (add_todo (lit '' '') (lit ''t3'') store_ab) = store_ab"
    by (simp add: add_todo_state s)
  have b: "snd (add_todo (lit ''C'') (lit ''t3'') store_ab) \<noteq> store_ab"
    by (simp add: add_todo_state s ne store_ab_def)
  show ?thesis
    using operations_return_the_display[of 1 store_ab "lit ''C''" "lit '' ''" "lit ''t3''"]
      operations_return_the_display[of 1 store_ab "lit ''C''" "lit ''C''" "lit ''t3''"] a b
    by (simp add: prod_eq_iff)
qed

end
